theory Spec2Isabelle
  imports Complex_Main "HOL-Library.Multiset"
begin

section \<open>Synthetic trace generator (generate\_traces.py)\<close>

text \<open>
  A call pattern is the Python tuple \<open>(caller, callee, frequency)\<close>; frequencies are
  Python integers. A trace is the dictionary built by the generator, with its four
  string entries (\<open>id_field\<close> is the key \<open>"id"\<close>; the two endpoints hold the
  \<open>serviceName\<close> of the nested dictionaries).
\<close>

type_synonym call_pattern = "string \<times> string \<times> int"

record trace =
  traceId :: string
  id_field :: string
  localEndpoint :: string
  remoteEndpoint :: string

text \<open>The Python faults the modelled code can raise.\<close>

datatype py_error = UnboundLocalError | KeyError | OverflowError

text \<open>\<open>str\<close> of a Python integer: decimal digits, with a minus sign when negative.\<close>

fun digits10 :: "nat \<Rightarrow> string" where
  "digits10 n =
     (if n < 10 then [''0123456789'' ! n]
      else digits10 (n div 10) @ [''0123456789'' ! (n mod 10)])"

declare digits10.simps [simp del]

definition str :: "int \<Rightarrow> string" where
  "str i = (if i < 0 then CHR ''-'' # digits10 (nat (- i)) else digits10 (nat i))"

text \<open>\<open>sum(freq for _, _, freq in call_patterns)\<close>\<close>

definition total_frequency :: "call_pattern list \<Rightarrow> int" where
  "total_frequency call_patterns = sum_list (map (\<lambda>(caller, callee, freq). freq) call_patterns)"

text \<open>
  The inner \<open>for caller, callee, freq in call_patterns\<close> loop. The loop variables are
  ordinary local variables of the function: they keep the value of the last tuple
  visited, also after the loop ends without \<open>break\<close>, and they are unbound
  (\<open>None\<close>) until some tuple has been visited. \<open>bound\<close> is their binding when the
  loop is entered, \<open>cumulative\<close> the running sum, \<open>rand_val\<close> the draw (a float,
  compared exactly with the integer sum, hence a real number here).
\<close>

fun select_pattern ::
  "real \<Rightarrow> int \<Rightarrow> call_pattern list \<Rightarrow> call_pattern option \<Rightarrow> call_pattern option" where
  "select_pattern rand_val cumulative [] bound = bound"
| "select_pattern rand_val cumulative ((caller, callee, freq) # rest) bound =
     (let cumulative' = cumulative + freq in
      if rand_val \<le> real_of_int cumulative' then Some (caller, callee, freq)
      else select_pattern rand_val cumulative' rest (Some (caller, callee, freq)))"

text \<open>
  \<open>random.uniform(0, total_frequency)\<close> computes \<open>a + (b - a) * self.random()\<close>. Here
  \<open>b - a\<close> is the integer total, and multiplying it by a float converts it to a double
  first: the conversion rounds to nearest, ties to even, and raises \<open>OverflowError\<close>
  when the result would exceed the largest double \<open>2^1024 - 2^971\<close>, that is when the
  absolute value of the integer is at least \<open>2^1024 - 2^970\<close>. When the call returns,
  its value comes from the random source, a parameter: \<open>rand i\<close> is the float returned
  by the call of iteration \<open>i\<close>.
\<close>

definition float_of_int_overflows :: "int \<Rightarrow> bool" where
  "float_of_int_overflows n \<longleftrightarrow> 2 ^ 1024 - 2 ^ 970 \<le> \<bar>n\<bar>"

definition random_uniform :: "(nat \<Rightarrow> real) \<Rightarrow> nat \<Rightarrow> int \<Rightarrow> py_error + real" where
  "random_uniform rand i b =
     (if float_of_int_overflows b then Inl OverflowError else Inr (rand i))"

text \<open>The local variables that live across the iterations of the outer loop.\<close>

record gen_state =
  traces :: "trace list"
  trace_id :: int
  loop_vars :: "call_pattern option"

text \<open>
  The outer \<open>for _ in range(num_traces)\<close> loop: \<open>i\<close> is the number of iterations done,
  \<open>k\<close> the number still to do, \<open>tf\<close> the value of \<open>total_frequency\<close>. Each iteration
  first draws (which can raise \<open>OverflowError\<close>), then runs the selection loop, then
  builds the trace; reading \<open>caller\<close> while it is unbound raises \<open>UnboundLocalError\<close>.
\<close>

fun trace_loop ::
  "(nat \<Rightarrow> real) \<Rightarrow> int \<Rightarrow> call_pattern list \<Rightarrow> nat \<Rightarrow> nat \<Rightarrow> gen_state \<Rightarrow>
   py_error + gen_state" where
  "trace_loop rand tf call_patterns i 0 st = Inr st"
| "trace_loop rand tf call_patterns i (Suc k) st =
     (case random_uniform rand i tf of
        Inl e \<Rightarrow> Inl e
      | Inr rand_val \<Rightarrow>
          (case select_pattern rand_val 0 call_patterns (loop_vars st) of
             None \<Rightarrow> Inl UnboundLocalError
           | Some (caller, callee, freq) \<Rightarrow>
               trace_loop rand tf call_patterns (Suc i) k
                 \<lparr>traces = traces st @
                    [\<lparr>traceId = str (trace_id st), id_field = str (trace_id st),
                      localEndpoint = caller, remoteEndpoint = callee\<rparr>],
                  trace_id = trace_id st + 1,
                  loop_vars = Some (caller, callee, freq)\<rparr>))"

text \<open>
  \<open>generate_microservice_traces(services, call_patterns, num_traces)\<close>;
  \<open>range(num_traces)\<close> is empty for a negative count.
\<close>

definition generate_microservice_traces ::
  "(nat \<Rightarrow> real) \<Rightarrow> string list \<Rightarrow> call_pattern list \<Rightarrow> int \<Rightarrow> py_error + trace list" where
  "generate_microservice_traces rand services call_patterns num_traces =
     (case trace_loop rand (total_frequency call_patterns) call_patterns 0 (nat num_traces)
             \<lparr>traces = [], trace_id = 1, loop_vars = None\<rparr> of
        Inl e \<Rightarrow> Inl e
      | Inr st \<Rightarrow> Inr (traces st))"

text \<open>The caller/callee pairs of a call-pattern list.\<close>

definition edges :: "call_pattern list \<Rightarrow> (string \<times> string) set" where
  "edges call_patterns = set (map (\<lambda>(caller, callee, freq). (caller, callee)) call_patterns)"

text \<open>
  The accumulated sum after the pattern at index \<open>k\<close> has been visited: the sum of the
  frequencies of the first \<open>k + 1\<close> patterns.
\<close>

definition accumulated :: "call_pattern list \<Rightarrow> nat \<Rightarrow> int" where
  "accumulated call_patterns k = total_frequency (take (Suc k) call_patterns)"

section \<open>Pattern catalog and expected-DCI report (generate\_traces.py)\<close>

text \<open>
  An entry of the dictionary returned by \<open>create_common_patterns\<close>: the keys
  \<open>"services"\<close> and \<open>"calls"\<close>.
\<close>

record pattern =
  pattern_services :: "string list"
  pattern_calls :: "call_pattern list"

text \<open>
  \<open>create_common_patterns()\<close>: the four built-in templates, in the order of the
  dictionary literal; a lookup by name is \<open>map_of\<close>.
\<close>

definition create_common_patterns :: "(string \<times> pattern) list" where
  "create_common_patterns =
     [(''simple_chain'',
       \<lparr>pattern_services = [''frontend'', ''api-gateway'', ''user-service'', ''database''],
        pattern_calls = [(''frontend'', ''api-gateway'', 10),
                 (''api-gateway'', ''user-service'', 8),
                 (''user-service'', ''database'', 6)]\<rparr>),
      (''ecommerce'',
       \<lparr>pattern_services = [''web'', ''api'', ''user'', ''order'', ''payment'', ''inventory'',
                    ''notification''],
        pattern_calls = [(''web'', ''api'', 15),
                 (''api'', ''user'', 8),
                 (''api'', ''order'', 6),
                 (''api'', ''payment'', 4),
                 (''order'', ''inventory'', 3),
                 (''order'', ''payment'', 2),
                 (''payment'', ''notification'', 1)]\<rparr>),
      (''microservice_mesh'',
       \<lparr>pattern_services = [''gateway'', ''auth'', ''user'', ''product'', ''order'', ''payment'',
                    ''shipping'', ''analytics''],
        pattern_calls = [(''gateway'', ''auth'', 12),
                 (''gateway'', ''user'', 10),
                 (''gateway'', ''product'', 8),
                 (''gateway'', ''order'', 6),
                 (''user'', ''auth'', 4),
                 (''order'', ''payment'', 3),
                 (''order'', ''shipping'', 2),
                 (''order'', ''analytics'', 1),
                 (''payment'', ''analytics'', 1)]\<rparr>),
      (''event_driven'',
       \<lparr>pattern_services = [''producer'', ''event-bus'', ''consumer1'', ''consumer2'', ''consumer3'',
                    ''database''],
        pattern_calls = [(''producer'', ''event-bus'', 20),
                 (''event-bus'', ''consumer1'', 8),
                 (''event-bus'', ''consumer2'', 6),
                 (''event-bus'', ''consumer3'', 4),
                 (''consumer1'', ''database'', 3),
                 (''consumer2'', ''database'', 2)]\<rparr>)]"

text \<open>
  The expected-DCI report at the end of \<open>main\<close>. \<open>service_calls\<close> is a dictionary
  from service names to sets of callees. First loop: every service gets the empty set.
\<close>

fun init_service_calls ::
  "string list \<Rightarrow> (string \<rightharpoonup> string set) \<Rightarrow> (string \<rightharpoonup> string set)" where
  "init_service_calls [] service_calls = service_calls"
| "init_service_calls (service # rest) service_calls =
     init_service_calls rest (service_calls(service \<mapsto> {}))"

text \<open>
  Second loop: \<open>service_calls[caller].add(callee)\<close>; the subscription raises \<open>KeyError\<close>
  when the caller is not a key.
\<close>

fun add_calls ::
  "call_pattern list \<Rightarrow> (string \<rightharpoonup> string set) \<Rightarrow> py_error + (string \<rightharpoonup> string set)" where
  "add_calls [] service_calls = Inr service_calls"
| "add_calls ((caller, callee, freq) # rest) service_calls =
     (case service_calls caller of
        None \<Rightarrow> Inl KeyError
      | Some callees \<Rightarrow> add_calls rest (service_calls(caller \<mapsto> insert callee callees)))"

text \<open>
  The conditional expression that classifies a score. Python computes the score as a
  float; here it is the exact quotient, a real number, and \<open>0.7\<close> and \<open>0.4\<close> are the
  decimal constants.
\<close>

definition coupling_status :: "real \<Rightarrow> string" where
  "coupling_status dci =
     (if dci \<ge> 0.7 then ''High'' else if dci \<ge> 0.4 then ''Moderate''
      else if dci > 0 then ''Low'' else ''No'')"

text \<open>
  What the last loop prints for one service: the name, \<open>actual_calls\<close>, \<open>max_possible\<close>,
  the score and its status.
\<close>

record dci_line =
  line_service :: string
  line_actual_calls :: nat
  line_max_possible :: int
  line_dci :: real
  line_status :: string

text \<open>
  Third loop, over the service list in its order: \<open>len(service_calls[service])\<close> is the
  cardinality of the set; the division is guarded by \<open>max_possible > 0\<close>.
\<close>

fun report_lines ::
  "(string \<rightharpoonup> string set) \<Rightarrow> int \<Rightarrow> string list \<Rightarrow> py_error + dci_line list" where
  "report_lines service_calls max_possible [] = Inr []"
| "report_lines service_calls max_possible (service # rest) =
     (case service_calls service of
        None \<Rightarrow> Inl KeyError
      | Some callees \<Rightarrow>
          (let actual_calls = card callees;
               dci = (if max_possible > 0 then real actual_calls / real_of_int max_possible
                      else 0);
               status = coupling_status dci
           in case report_lines service_calls max_possible rest of
                Inl e \<Rightarrow> Inl e
              | Inr lines \<Rightarrow>
                  Inr (\<lparr>line_service = service, line_actual_calls = actual_calls,
                        line_max_possible = max_possible, line_dci = dci, line_status = status\<rparr> # lines)))"

text \<open>
  The whole report: the three loops, with \<open>max_possible = len(services) - 1\<close>.
\<close>

definition expected_dci :: "string list \<Rightarrow> call_pattern list \<Rightarrow> py_error + dci_line list" where
  "expected_dci services calls =
     (case add_calls calls (init_service_calls services Map.empty) of
        Inl e \<Rightarrow> Inl e
      | Inr service_calls \<Rightarrow> report_lines service_calls (int (length services) - 1) services)"

text \<open>
  The specification's wording of the same quantities, to compare the code with:
  the number of distinct callee values over the patterns whose caller is \<open>S\<close>, and that
  number divided by \<open>|services| - 1\<close>, or 0 when \<open>|services| - 1\<close> is not positive.
\<close>

definition distinctCallees :: "call_pattern list \<Rightarrow> string \<Rightarrow> nat" where
  "distinctCallees calls S =
     card (set (map (\<lambda>(caller, callee, freq). callee)
                    (filter (\<lambda>(caller, callee, freq). caller = S) calls)))"

definition expectedDci :: "string list \<Rightarrow> call_pattern list \<Rightarrow> string \<Rightarrow> real" where
  "expectedDci services calls S =
     (if int (length services) - 1 > 0
      then real (distinctCallees calls S) / real_of_int (int (length services) - 1)
      else 0)"

text \<open>The set of callees of a service in a call-pattern list.\<close>

definition callees_of :: "call_pattern list \<Rightarrow> string \<Rightarrow> string set" where
  "callees_of calls S = {callee. (S, callee) \<in> edges calls}"

section \<open>Validation script (validate\_rmt\_dci.py)\<close>

text \<open>
  A row of the DCI results table: the columns \<open>Service\<close>, \<open>DCI\<close>, \<open>Status\<close> of the data
  frame; a table is the list of its rows. A float cell is modelled by the real number
  it denotes exactly (every double is a rational number).
\<close>

record dci_row =
  Service :: string
  DCI :: real
  Status :: string

text \<open>
  The MCI table as \<open>pd.read_csv\<close> returns it: the column names of its header, and for
  each row the cells under \<open>Service\<close> and \<open>MCI_Afferent\<close> (read only when the header
  has these columns). The header matters: \<open>pd.merge\<close> renames a column other than the
  key that both tables have (\<open>DCI\<close> becomes \<open>DCI_x\<close> and \<open>DCI_y\<close>), and a column that is
  not in the merged frame raises \<open>KeyError\<close> when it is read.
\<close>

record mci_row =
  mci_Service :: string
  MCI_Afferent :: real

record mci_frame =
  mci_columns :: "string list"
  mci_rows :: "mci_row list"

text \<open>
  A row of the merged frame, with the columns the comparison reads and the \<open>Difference\<close>
  column it adds.
\<close>

record merged_row =
  merged_Service :: string
  merged_DCI :: real
  merged_MCI_Afferent :: real
  Difference :: real

text \<open>
  \<open>load_dci_results\<close>: every exception raised while the file is read (missing file,
  unreadable table, no \<open>DCI\<close> column) is caught and \<open>None\<close> is returned. The reader is a
  parameter: \<open>read_csv f\<close> is \<open>None\<close> when reading \<open>f\<close> raises.
\<close>

definition load_dci_results ::
  "(string \<Rightarrow> dci_row list option) \<Rightarrow> string \<Rightarrow> dci_row list option" where
  "load_dci_results read_csv csv_file =
     (case read_csv csv_file of None \<Rightarrow> None | Some df \<Rightarrow> Some df)"

text \<open>
  \<open>Series.value_counts()\<close> of pandas: the number of occurrences of each value that
  occurs in the column, as a mapping from values to counts (the order of the entries
  is not modelled).
\<close>

fun value_counts :: "string list \<Rightarrow> (string \<rightharpoonup> nat)" where
  "value_counts [] = Map.empty"
| "value_counts (v # rest) =
     (let counts = value_counts rest in
      counts(v \<mapsto> (case counts v of None \<Rightarrow> 1 | Some c \<Rightarrow> Suc c)))"

text \<open>
  \<open>status_counts = df['Status'].value_counts()\<close> in \<open>analyze_dci_results\<close>.
\<close>

definition status_counts :: "dci_row list \<Rightarrow> (string \<rightharpoonup> nat)" where
  "status_counts df = value_counts (map Status df)"

text \<open>
  \<open>pd.merge(dci_df, mci_df, on='Service', how='inner')\<close>: every pair of a DCI row and
  an MCI row with the same service name, in the order of the DCI rows.
\<close>

definition merge_inner :: "dci_row list \<Rightarrow> mci_row list \<Rightarrow> (dci_row \<times> mci_row) list" where
  "merge_inner dci_df mci_df =
     concat (map (\<lambda>d. map (\<lambda>m. (d, m)) (filter (\<lambda>m. mci_Service m = Service d) mci_df)) dci_df)"

text \<open>
  \<open>merged['Difference'] = abs(merged['DCI'] - merged['MCI_Afferent'])\<close>, row by row. The
  subtraction of two doubles is their exact difference rounded to the nearest double;
  the rounding of the machine is a parameter, \<open>rnd\<close>, which leaves a number that is a
  double unchanged (the difference of two doubles within a factor of two of each other
  is one). The absolute value of a double is exact.
\<close>

definition with_difference :: "(real \<Rightarrow> real) \<Rightarrow> dci_row \<times> mci_row \<Rightarrow> merged_row" where
  "with_difference rnd dm =
     (case dm of (d, m) \<Rightarrow>
        \<lparr>merged_Service = Service d, merged_DCI = DCI d,
         merged_MCI_Afferent = MCI_Afferent m,
         Difference = \<bar>rnd (DCI d - MCI_Afferent m)\<bar>\<rparr>)"

text \<open>
  The body of the \<open>try\<close> block of \<open>compare_with_mci\<close>, once the MCI table has been read.
  \<open>corr\<close> is the library function \<open>Series.corr\<close> of pandas, a parameter: it takes the two
  columns and returns a float, \<open>None\<close> standing for NaN; \<open>rnd\<close> is the rounding of the
  subtraction. The steps, in the order of the
  code: the merge (it raises \<open>KeyError\<close> when the MCI table has no \<open>Service\<close> column); the
  guard \<open>len(merged) > 0\<close>, the only one; reading \<open>merged['DCI']\<close> (absent when the MCI
  table has a \<open>DCI\<close> column of its own) and \<open>merged['MCI_Afferent']\<close>; the call of \<open>corr\<close>,
  whose result is printed; the \<open>Difference\<close> column. The result is the printed
  correlation with the returned frame, or \<open>None\<close> when the function returns \<open>None\<close>.
\<close>

definition compare_try ::
  "(real list \<Rightarrow> real list \<Rightarrow> real option) \<Rightarrow> (real \<Rightarrow> real) \<Rightarrow> dci_row list \<Rightarrow>
   mci_frame \<Rightarrow> py_error + (real option \<times> merged_row list) option" where
  "compare_try corr rnd dci_df mci_df =
     (if ''Service'' \<notin> set (mci_columns mci_df) then Inl KeyError
      else
        let merged = merge_inner dci_df (mci_rows mci_df) in
        if length merged > 0 then
          if ''DCI'' \<in> set (mci_columns mci_df) then Inl KeyError
          else if ''MCI_Afferent'' \<notin> set (mci_columns mci_df) then Inl KeyError
          else
            let correlation = corr (map (\<lambda>(d, m). DCI d) merged)
                                   (map (\<lambda>(d, m). MCI_Afferent m) merged)
            in Inr (Some (correlation, map (with_difference rnd) merged))
        else Inr None)"

text \<open>
  \<open>compare_with_mci\<close>: \<open>mci_data\<close> is the MCI table when a file name was given, the file
  exists and was read, and \<open>None\<close> otherwise. Every exception raised in the \<open>try\<close> block
  is caught and reported, and the function then returns \<open>None\<close>.
\<close>

definition compare_with_mci ::
  "(real list \<Rightarrow> real list \<Rightarrow> real option) \<Rightarrow> (real \<Rightarrow> real) \<Rightarrow> dci_row list \<Rightarrow>
   mci_frame option \<Rightarrow> (real option \<times> merged_row list) option" where
  "compare_with_mci corr rnd dci_df mci_data =
     (case mci_data of
        None \<Rightarrow> None
      | Some mci_df \<Rightarrow>
          (case compare_try corr rnd dci_df mci_df of
             Inl e \<Rightarrow> None
           | Inr result \<Rightarrow> result))"

text \<open>
  The Pearson coefficient that \<open>Series.corr\<close> computes by default, over the real
  numbers, used to run the model on concrete tables: the covariance divided by the
  product of the standard deviations, and NaN (\<open>None\<close>) where that quotient is \<open>0/0\<close>,
  that is for fewer than two observations and for a column without variance.
\<close>

definition pearson :: "real list \<Rightarrow> real list \<Rightarrow> real option" where
  "pearson xs ys =
     (let n = real (length xs);
          mx = sum_list xs / n;
          my = sum_list ys / n;
          sxx = sum_list (map (\<lambda>x. (x - mx) * (x - mx)) xs);
          syy = sum_list (map (\<lambda>y. (y - my) * (y - my)) ys);
          sxy = sum_list (map (\<lambda>(x, y). (x - mx) * (y - my)) (zip xs ys))
      in if length xs < 2 \<or> sxx = 0 \<or> syy = 0 then None
         else Some (sxy / sqrt (sxx * syy)))"

text \<open>
  The exit status of \<open>main\<close> of the generator script: \<open>sys.exit(1)\<close> and an uncaught
  exception end the process with status 1, a normal return with status 0. \<open>argv\<close> is
  \<open>sys.argv\<close>; \<open>py_int\<close> is Python's \<open>int\<close> on strings (\<open>None\<close> for \<open>ValueError\<close>);
  \<open>writable\<close> says whether the output file could be written.
\<close>

definition generate_traces_main ::
  "(string \<Rightarrow> int option) \<Rightarrow> (nat \<Rightarrow> real) \<Rightarrow> bool \<Rightarrow> string list \<Rightarrow> nat" where
  "generate_traces_main py_int rand writable argv =
     (if length argv < 2 then 1
      else
        let pattern_name = argv ! 1 in
        case (if length argv > 2 then py_int (argv ! 2) else Some 100) of
          None \<Rightarrow> 1
        | Some num_traces \<Rightarrow>
            (case map_of create_common_patterns pattern_name of
               None \<Rightarrow> 1
             | Some pattern \<Rightarrow>
                 (case generate_microservice_traces rand (pattern_services pattern)
                         (pattern_calls pattern) num_traces of
                    Inl e \<Rightarrow> 1
                  | Inr traces' \<Rightarrow>
                      if \<not> writable then 1
                      else (case expected_dci (pattern_services pattern) (pattern_calls pattern) of
                              Inl e \<Rightarrow> 1
                            | Inr lines \<Rightarrow> 0))))"

text \<open>
  The exit status of \<open>main\<close> of the validation script. It never calls \<open>sys.exit\<close>: the
  usage message and a failed load end with a plain \<open>return\<close>. \<open>corr\<close> and \<open>rnd\<close> are the
  library's correlation and the rounding, as above; \<open>read_dci\<close> and \<open>read_mci\<close>
  read the two tables (\<open>None\<close> when the file is missing or cannot be read); \<open>writable\<close>
  says whether the comparison template could be written. \<open>if mci_file:\<close> is false for
  a missing argument and for the empty string. Between the load and the comparison,
  \<open>analyze_dci_results\<close> only prints, and does not fail on a table that has the three
  columns; \<open>compare_with_mci\<close> catches its own exceptions.
\<close>

definition validate_main ::
  "(real list \<Rightarrow> real list \<Rightarrow> real option) \<Rightarrow> (real \<Rightarrow> real) \<Rightarrow>
   (string \<Rightarrow> dci_row list option) \<Rightarrow> (string \<Rightarrow> mci_frame option) \<Rightarrow> bool \<Rightarrow>
   string list \<Rightarrow> nat" where
  "validate_main corr rnd read_dci read_mci writable argv =
     (if length argv < 2 then 0
      else
        let dci_file = argv ! 1;
            mci_file = (if length argv > 2 then Some (argv ! 2) else None)
        in case load_dci_results read_dci dci_file of
             None \<Rightarrow> 0
           | Some dci_df \<Rightarrow>
               (case mci_file of
                  None \<Rightarrow> if writable then 0 else 1
                | Some f \<Rightarrow>
                    if f \<noteq> [] then (case compare_with_mci corr rnd dci_df (read_mci f) of _ \<Rightarrow> 0)
                    else if writable then 0 else 1))"


section \<open>Properties of the trace generator\<close>

lemma select_pattern_cases:
  "select_pattern u c cps b = b \<and> cps = [] \<or> (\<exists>p \<in> set cps. select_pattern u c cps b = Some p)"
  by (induction u c cps b rule: select_pattern.induct) (auto simp: Let_def)

lemma select_pattern_nonempty:
  "cps \<noteq> [] \<Longrightarrow> \<exists>p \<in> set cps. select_pattern u c cps b = Some p"
  using select_pattern_cases [of u c cps b] by auto

lemma edges_member: "(caller, callee, freq) \<in> set cps \<Longrightarrow> (caller, callee) \<in> edges cps"
  by (force simp: edges_def)

lemma random_uniform_Inr:
  "random_uniform rand i tf = Inr u \<longleftrightarrow> \<not> float_of_int_overflows tf \<and> u = rand i"
  by (auto simp: random_uniform_def)

lemma trace_loop_Inr:
  "trace_loop rand tf cps i k st = Inr st' \<Longrightarrow>
   (\<forall>p. loop_vars st = Some p \<longrightarrow> p \<in> set cps) \<Longrightarrow>
   \<exists>new. traces st' = traces st @ new \<and> length new = k \<and>
     (\<forall>j<k. traceId (new ! j) = str (trace_id st + int j) \<and>
             id_field (new ! j) = str (trace_id st + int j) \<and>
             (localEndpoint (new ! j), remoteEndpoint (new ! j)) \<in> edges cps)"
proof (induction k arbitrary: i st)
  case 0
  then show ?case by simp
next
  case (Suc k)
  from Suc.prems(1) have draw: "random_uniform rand i tf = Inr (rand i)"
    by (auto simp: random_uniform_def split: if_splits)
  from Suc.prems(1) obtain caller callee freq where
    sel: "select_pattern (rand i) 0 cps (loop_vars st) = Some (caller, callee, freq)"
    by (auto simp: draw split: option.splits)
  let ?t = "\<lparr>traceId = str (trace_id st), id_field = str (trace_id st),
             localEndpoint = caller, remoteEndpoint = callee\<rparr>"
  let ?st = "\<lparr>traces = traces st @ [?t], trace_id = trace_id st + 1,
              loop_vars = Some (caller, callee, freq)\<rparr>"
  have mem: "(caller, callee, freq) \<in> set cps"
  proof (cases "cps = []")
    case True
    then have "loop_vars st = Some (caller, callee, freq)" using sel by simp
    with Suc.prems(2) show ?thesis by blast
  next
    case False
    from select_pattern_nonempty [OF False, of "rand i" 0 "loop_vars st"] sel
    show ?thesis by auto
  qed
  have run: "trace_loop rand tf cps (Suc i) k ?st = Inr st'"
    using Suc.prems(1) sel by (simp add: draw)
  have inv: "\<forall>p. loop_vars ?st = Some p \<longrightarrow> p \<in> set cps"
    using mem by simp
  from Suc.IH [OF run inv] obtain new where
    new: "traces st' = traces ?st @ new" "length new = k"
      "\<forall>j<k. traceId (new ! j) = str (trace_id ?st + int j) \<and>
             id_field (new ! j) = str (trace_id ?st + int j) \<and>
             (localEndpoint (new ! j), remoteEndpoint (new ! j)) \<in> edges cps"
    by blast
  have "traces st' = traces st @ (?t # new)" using new(1) by simp
  moreover have "length (?t # new) = Suc k" using new(2) by simp
  moreover have "\<forall>j<Suc k. traceId ((?t # new) ! j) = str (trace_id st + int j) \<and>
             id_field ((?t # new) ! j) = str (trace_id st + int j) \<and>
             (localEndpoint ((?t # new) ! j), remoteEndpoint ((?t # new) ! j)) \<in> edges cps"
  proof (intro allI impI)
    fix j assume j: "j < Suc k"
    show "traceId ((?t # new) ! j) = str (trace_id st + int j) \<and>
             id_field ((?t # new) ! j) = str (trace_id st + int j) \<and>
             (localEndpoint ((?t # new) ! j), remoteEndpoint ((?t # new) ! j)) \<in> edges cps"
    proof (cases j)
      case 0
      then show ?thesis using mem by (simp add: edges_member)
    next
      case (Suc j')
      then have lt: "j' < k" using j by simp
      have eq: "trace_id st + 1 + int j' = trace_id st + int j"
        using Suc by simp
      have nth: "(?t # new) ! j = new ! j'" using Suc by simp
      from new(3) lt have
        "traceId (new ! j') = str (trace_id st + 1 + int j') \<and>
         id_field (new ! j') = str (trace_id st + 1 + int j') \<and>
         (localEndpoint (new ! j'), remoteEndpoint (new ! j')) \<in> edges cps"
        by simp
      then show ?thesis unfolding nth eq .
    qed
  qed
  ultimately show ?case by blast
qed

lemma trace_loop_total:
  "cps \<noteq> [] \<Longrightarrow> \<not> float_of_int_overflows tf \<Longrightarrow>
   \<exists>st'. trace_loop rand tf cps i k st = Inr st'"
proof (induction k arbitrary: i st)
  case 0
  then show ?case by simp
next
  case (Suc k)
  have draw: "random_uniform rand i tf = Inr (rand i)"
    using Suc.prems(2) by (simp add: random_uniform_def)
  from select_pattern_nonempty [OF Suc.prems(1), of "rand i" 0 "loop_vars st"]
  obtain caller callee freq where
    "select_pattern (rand i) 0 cps (loop_vars st) = Some (caller, callee, freq)"
    by (metis prod_cases3)
  then show ?case using Suc.IH [OF Suc.prems] by (simp add: draw)
qed

lemma trace_loop_overflow:
  "float_of_int_overflows tf \<Longrightarrow> trace_loop rand tf cps i (Suc k) st = Inl OverflowError"
  by (simp add: random_uniform_def)

text \<open>
  Claim C1, as the code has it. For every call-pattern list that is not empty and whose
  total weight converts to a float (its absolute value is below \<open>2^1024 - 2^970\<close>; every
  total that fits a double does), every requested count \<open>N \<ge> 0\<close> and every sequence of
  draws, the generator returns a list of exactly \<open>N\<close> traces, and the pair
  (localEndpoint, remoteEndpoint) of each trace is the (caller, callee) of some pattern
  of the list. For \<open>N = 0\<close> no draw is made and the bound on the total is not needed.
\<close>

theorem synth_count_and_edges:
  assumes "call_patterns \<noteq> []" and "0 \<le> num_traces"
    and "num_traces = 0 \<or> \<bar>total_frequency call_patterns\<bar> < 2 ^ 1024 - 2 ^ 970"
  shows "\<exists>ts. generate_microservice_traces rand services call_patterns num_traces = Inr ts \<and>
           int (length ts) = num_traces \<and>
           (\<forall>t \<in> set ts. (localEndpoint t, remoteEndpoint t) \<in> edges call_patterns)"
proof -
  let ?st0 = "\<lparr>traces = [], trace_id = 1, loop_vars = None\<rparr>"
  let ?tf = "total_frequency call_patterns"
  have "\<exists>st'. trace_loop rand ?tf call_patterns 0 (nat num_traces) ?st0 = Inr st'"
  proof (cases "num_traces = 0")
    case True
    then show ?thesis by simp
  next
    case False
    with assms(3) have "\<not> float_of_int_overflows ?tf"
      by (simp add: float_of_int_overflows_def)
    from trace_loop_total [OF assms(1) this] show ?thesis .
  qed
  then obtain st' where
    run: "trace_loop rand ?tf call_patterns 0 (nat num_traces) ?st0 = Inr st'" by blast
  from trace_loop_Inr [OF run] obtain new where
    new: "traces st' = new" "length new = nat num_traces"
      "\<forall>j<nat num_traces. (localEndpoint (new ! j), remoteEndpoint (new ! j)) \<in> edges call_patterns"
    by auto
  have "\<forall>t \<in> set new. (localEndpoint t, remoteEndpoint t) \<in> edges call_patterns"
    using new(2,3) by (auto simp: in_set_conv_nth)
  then show ?thesis
    using run new assms(2) by (simp add: generate_microservice_traces_def)
qed

text \<open>
  Claim C1 as stated fails for a non-empty list whose total weight does not convert to a
  float: with the single pattern \<open>('a', 'b', 2 ** 1024)\<close> and the count 1 the first draw
  raises \<open>OverflowError\<close> and no trace is returned.
\<close>

theorem synth_overflow_no_traces:
  "generate_microservice_traces real [''a'', ''b''] [(''a'', ''b'', 2 ^ 1024)] 1 =
     Inl OverflowError"
  by (simp add: generate_microservice_traces_def total_frequency_def random_uniform_def
      float_of_int_overflows_def)

lemma accumulated_Cons_0: "accumulated ((caller, callee, freq) # rest) 0 = freq"
  by (simp add: accumulated_def total_frequency_def)

lemma accumulated_Cons_Suc:
  "accumulated ((caller, callee, freq) # rest) (Suc k) = freq + accumulated rest k"
  by (simp add: accumulated_def total_frequency_def)

lemma accumulated_last:
  "cps \<noteq> [] \<Longrightarrow> accumulated cps (length cps - 1) = total_frequency cps"
  by (simp add: accumulated_def)

lemma select_pattern_first:
  "k < length cps \<Longrightarrow> u \<le> real_of_int (c + accumulated cps k) \<Longrightarrow>
   (\<forall>j<k. real_of_int (c + accumulated cps j) < u) \<Longrightarrow>
   select_pattern u c cps b = Some (cps ! k)"
proof (induction u c cps b arbitrary: k rule: select_pattern.induct)
  case (1 rand_val cumulative bound)
  then show ?case by simp
next
  case (2 rand_val cumulative caller callee freq rest bound)
  show ?case
  proof (cases k)
    case 0
    then show ?thesis using "2.prems"(2) by (simp add: accumulated_Cons_0 Let_def)
  next
    case (Suc k')
    have first: "\<not> rand_val \<le> real_of_int (cumulative + freq)"
      using "2.prems"(3) [rule_format, of 0] Suc by (simp add: accumulated_Cons_0)
    have "select_pattern rand_val (cumulative + freq) rest (Some (caller, callee, freq)) =
            Some (rest ! k')"
    proof (rule "2.IH" [OF refl first])
      show "k' < length rest" using "2.prems"(1) Suc by simp
      show "rand_val \<le> real_of_int (cumulative + freq + accumulated rest k')"
        using "2.prems"(2) Suc by (simp add: accumulated_Cons_Suc add.assoc)
      show "\<forall>j<k'. real_of_int (cumulative + freq + accumulated rest j) < rand_val"
      proof (intro allI impI)
        fix j assume "j < k'"
        then have "Suc j < k" using Suc by simp
        from "2.prems"(3) [rule_format, OF this]
        show "real_of_int (cumulative + freq + accumulated rest j) < rand_val"
          by (simp add: accumulated_Cons_Suc add.assoc)
      qed
    qed
    then show ?thesis using first Suc by (simp add: Let_def)
  qed
qed

lemma select_pattern_past_end:
  "cps \<noteq> [] \<Longrightarrow> (\<forall>k<length cps. real_of_int (c + accumulated cps k) < u) \<Longrightarrow>
   select_pattern u c cps b = Some (last cps)"
proof (induction u c cps b rule: select_pattern.induct)
  case (1 rand_val cumulative bound)
  then show ?case by simp
next
  case (2 rand_val cumulative caller callee freq rest bound)
  have first: "\<not> rand_val \<le> real_of_int (cumulative + freq)"
    using "2.prems"(2) [rule_format, of 0] by (simp add: accumulated_Cons_0)
  show ?case
  proof (cases "rest = []")
    case True
    then show ?thesis using first by (simp add: Let_def)
  next
    case False
    have "\<forall>k<length rest. real_of_int (cumulative + freq + accumulated rest k) < rand_val"
    proof (intro allI impI)
      fix k assume "k < length rest"
      then have "Suc k < length ((caller, callee, freq) # rest)" by simp
      from "2.prems"(2) [rule_format, OF this]
      show "real_of_int (cumulative + freq + accumulated rest k) < rand_val"
        by (simp add: accumulated_Cons_Suc add.assoc)
    qed
    from "2.IH" [OF refl first False this] show ?thesis
      using first False by (simp add: Let_def)
  qed
qed

lemma first_reaching_exists:
  assumes "cps \<noteq> []" and "u \<le> real_of_int (total_frequency cps)"
  shows "\<exists>k<length cps. u \<le> real_of_int (accumulated cps k) \<and>
           (\<forall>j<k. real_of_int (accumulated cps j) < u)"
proof -
  let ?P = "\<lambda>k. k < length cps \<and> u \<le> real_of_int (accumulated cps k)"
  have "?P (length cps - 1)" using assms accumulated_last [OF assms(1)] by simp
  then have least: "?P (LEAST k. ?P k)" by (rule LeastI)
  have "\<forall>j<(LEAST k. ?P k). real_of_int (accumulated cps j) < u"
  proof (intro allI impI)
    fix j assume j: "j < (LEAST k. ?P k)"
    then have "\<not> ?P j" by (rule not_less_Least)
    moreover have "j < length cps" using j least by simp
    ultimately show "real_of_int (accumulated cps j) < u" by simp
  qed
  with least show ?thesis by blast
qed

text \<open>
  Claim C2. For a non-empty call-pattern list the selection loop, started with the running
  sum 0, returns the pattern at the first index whose accumulated sum is at least the draw
  \<open>u\<close>; such an index exists whenever \<open>u\<close> lies in \<open>[0, total_frequency]\<close>; and when \<open>u\<close>
  is greater than every accumulated sum (past the last boundary) the loop ends without
  \<open>break\<close> and the last pattern of the list is the one selected, whatever was bound before.
\<close>

theorem weighted_selection_first_reaching:
  assumes "call_patterns \<noteq> []"
  shows "(0 \<le> u \<and> u \<le> real_of_int (total_frequency call_patterns) \<longrightarrow>
            (\<exists>k<length call_patterns.
               u \<le> real_of_int (accumulated call_patterns k) \<and>
               (\<forall>j<k. real_of_int (accumulated call_patterns j) < u) \<and>
               select_pattern u 0 call_patterns bound = Some (call_patterns ! k))) \<and>
         (\<forall>k<length call_patterns.
            u \<le> real_of_int (accumulated call_patterns k) \<and>
            (\<forall>j<k. real_of_int (accumulated call_patterns j) < u) \<longrightarrow>
            select_pattern u 0 call_patterns bound = Some (call_patterns ! k)) \<and>
         ((\<forall>k<length call_patterns. real_of_int (accumulated call_patterns k) < u) \<longrightarrow>
            select_pattern u 0 call_patterns bound = Some (last call_patterns))"
proof (intro conjI impI allI)
  assume "0 \<le> u \<and> u \<le> real_of_int (total_frequency call_patterns)"
  then have "u \<le> real_of_int (total_frequency call_patterns)" by simp
  from first_reaching_exists [OF assms this] obtain k where
    k: "k < length call_patterns" "u \<le> real_of_int (accumulated call_patterns k)"
       "\<forall>j<k. real_of_int (accumulated call_patterns j) < u" by blast
  then have "select_pattern u 0 call_patterns bound = Some (call_patterns ! k)"
    using select_pattern_first [of k call_patterns u 0 bound] by simp
  with k show "\<exists>k<length call_patterns.
               u \<le> real_of_int (accumulated call_patterns k) \<and>
               (\<forall>j<k. real_of_int (accumulated call_patterns j) < u) \<and>
               select_pattern u 0 call_patterns bound = Some (call_patterns ! k)" by blast
next
  fix k
  assume "k < length call_patterns"
    and "u \<le> real_of_int (accumulated call_patterns k) \<and>
            (\<forall>j<k. real_of_int (accumulated call_patterns j) < u)"
  then show "select_pattern u 0 call_patterns bound = Some (call_patterns ! k)"
    using select_pattern_first [of k call_patterns u 0 bound] by simp
next
  assume "\<forall>k<length call_patterns. real_of_int (accumulated call_patterns k) < u"
  then show "select_pattern u 0 call_patterns bound = Some (last call_patterns)"
    using select_pattern_past_end [OF assms, of 0 u bound] by simp
qed

text \<open>
  Claim C4, as the code has it. With an empty call-pattern list the generator checks
  nothing: for a count \<open>N \<le> 0\<close> it returns the empty list of traces, and for \<open>N \<ge> 1\<close> the
  first iteration reads the loop variable \<open>caller\<close>, which was never bound, so the call
  ends with Python's \<open>UnboundLocalError\<close> and no trace list is returned. No configuration
  error exists in the program.
\<close>

theorem empty_patterns_no_config_error:
  "generate_microservice_traces rand services [] num_traces =
     (if num_traces \<le> 0 then Inr [] else Inl UnboundLocalError)"
proof (cases "num_traces \<le> 0")
  case True
  then show ?thesis by (simp add: generate_microservice_traces_def)
next
  case False
  then obtain k where "nat num_traces = Suc k" by (cases "nat num_traces") auto
  moreover have "random_uniform rand 0 (total_frequency []) = Inr (rand 0)"
    by (simp add: random_uniform_def total_frequency_def float_of_int_overflows_def)
  ultimately show ?thesis using False by (simp add: generate_microservice_traces_def)
qed

text \<open>
  Claim C4 as stated fails at the count 0: the generator returns the empty list.
\<close>

theorem empty_patterns_zero_count_returns:
  "generate_microservice_traces real [''frontend''] [] 0 = Inr []"
  by (simp add: generate_microservice_traces_def)

text \<open>
  Claim C10. The \<open>services\<close> argument has no effect on the result: with the same draws,
  patterns and count, two calls with different service lists return the same value. When
  a trace list is returned, the trace at position \<open>j\<close> (from 0) has \<open>traceId\<close> and \<open>id\<close>
  both equal to \<open>str (j + 1)\<close>, and its endpoints are the caller and callee of a pattern.
\<close>

theorem services_argument_unused:
  "generate_microservice_traces rand services1 call_patterns num_traces =
     generate_microservice_traces rand services2 call_patterns num_traces \<and>
   (\<forall>ts. generate_microservice_traces rand services1 call_patterns num_traces = Inr ts \<longrightarrow>
      (\<forall>j<length ts. traceId (ts ! j) = str (int j + 1) \<and> id_field (ts ! j) = str (int j + 1) \<and>
         (localEndpoint (ts ! j), remoteEndpoint (ts ! j)) \<in> edges call_patterns))"
proof (rule conjI)
  show "generate_microservice_traces rand services1 call_patterns num_traces =
     generate_microservice_traces rand services2 call_patterns num_traces"
    by (simp add: generate_microservice_traces_def)
next
  show "\<forall>ts. generate_microservice_traces rand services1 call_patterns num_traces = Inr ts \<longrightarrow>
      (\<forall>j<length ts. traceId (ts ! j) = str (int j + 1) \<and> id_field (ts ! j) = str (int j + 1) \<and>
         (localEndpoint (ts ! j), remoteEndpoint (ts ! j)) \<in> edges call_patterns)"
  proof (intro allI impI)
    fix ts j
    assume res: "generate_microservice_traces rand services1 call_patterns num_traces = Inr ts"
      and j: "j < length ts"
    let ?st0 = "\<lparr>traces = [], trace_id = 1, loop_vars = None\<rparr>"
    from res obtain st' where
      run: "trace_loop rand (total_frequency call_patterns) call_patterns 0 (nat num_traces)
              ?st0 = Inr st'"
      and ts: "ts = traces st'"
      by (auto simp: generate_microservice_traces_def split: sum.splits)
    from trace_loop_Inr [OF run] obtain new where
      new: "traces st' = new" "length new = nat num_traces"
        "\<forall>j<nat num_traces. traceId (new ! j) = str (1 + int j) \<and>
               id_field (new ! j) = str (1 + int j) \<and>
               (localEndpoint (new ! j), remoteEndpoint (new ! j)) \<in> edges call_patterns"
      by auto
    from new ts j
    show "traceId (ts ! j) = str (int j + 1) \<and> id_field (ts ! j) = str (int j + 1) \<and>
           (localEndpoint (ts ! j), remoteEndpoint (ts ! j)) \<in> edges call_patterns"
      by (simp add: add.commute)
  qed
qed

subsection \<open>Concrete runs\<close>

lemma gen_example:
  "generate_microservice_traces (\<lambda>i. if i = 0 then 3 else 14) []
     [(''a'', ''b'', 10), (''b'', ''c'', 8)] 2 =
   Inr [\<lparr>traceId = ''1'', id_field = ''1'', localEndpoint = ''a'', remoteEndpoint = ''b''\<rparr>,
        \<lparr>traceId = ''2'', id_field = ''2'', localEndpoint = ''b'', remoteEndpoint = ''c''\<rparr>]"
  by (simp add: generate_microservice_traces_def numeral_2_eq_2 Let_def str_def digits10.simps
      total_frequency_def random_uniform_def float_of_int_overflows_def)

theorem synth_count_and_edges_witness:
  "[(''a'', ''b'', 10), (''b'', ''c'', 8)] \<noteq> ([] :: call_pattern list) \<and> (0::int) \<le> 2 \<and>
   \<bar>total_frequency [(''a'', ''b'', 10), (''b'', ''c'', 8)]\<bar> < 2 ^ 1024 - 2 ^ 970 \<and>
   (\<exists>ts. generate_microservice_traces (\<lambda>i. if i = 0 then 3 else 14) [''a'', ''b'', ''c'']
            [(''a'', ''b'', 10), (''b'', ''c'', 8)] 2 = Inr ts \<and>
          int (length ts) = 2 \<and>
          (\<forall>t \<in> set ts. (localEndpoint t, remoteEndpoint t) \<in>
                edges [(''a'', ''b'', 10), (''b'', ''c'', 8)]))"
proof -
  let ?cps = "[(''a'', ''b'', 10), (''b'', ''c'', 8)] :: call_pattern list"
  have ne: "?cps \<noteq> []" and n: "(0::int) \<le> 2" by simp_all
  have small: "\<bar>total_frequency ?cps\<bar> < 2 ^ 1024 - 2 ^ 970"
    by (simp add: total_frequency_def)
  then have hyp: "(2::int) = 0 \<or> \<bar>total_frequency ?cps\<bar> < 2 ^ 1024 - 2 ^ 970" by simp
  from synth_count_and_edges [OF ne n hyp, of "\<lambda>i. if i = 0 then 3 else 14"
      "[''a'', ''b'', ''c'']"] ne n small
  show ?thesis by blast
qed

theorem weighted_selection_first_reaching_witness:
  "select_pattern 14 0 [(''a'', ''b'', 10), (''b'', ''c'', 8), (''c'', ''d'', 6)] None =
     Some (''b'', ''c'', 8) \<and>
   select_pattern 25 0 [(''a'', ''b'', 10), (''b'', ''c'', 8), (''c'', ''d'', 6)] None =
     Some (''c'', ''d'', 6)"
proof -
  let ?cps = "[(''a'', ''b'', 10), (''b'', ''c'', 8), (''c'', ''d'', 6)] :: call_pattern list"
  have ne: "?cps \<noteq> []" by simp
  have a0: "accumulated ?cps 0 = 10" and a1: "accumulated ?cps 1 = 18"
    and a2: "accumulated ?cps 2 = 24"
    by (simp_all add: accumulated_def total_frequency_def numeral_2_eq_2)
  have lt: "\<And>j. j < (1::nat) \<longleftrightarrow> j = 0" by auto
  have "select_pattern 14 0 ?cps None = Some (?cps ! 1)"
    using weighted_selection_first_reaching [OF ne, of 14 None, THEN conjunct2, THEN conjunct1,
        rule_format, of 1] a0 a1
    by (simp add: lt)
  moreover have "select_pattern 25 0 ?cps None = Some (last ?cps)"
    using weighted_selection_first_reaching [OF ne, of 25 None, THEN conjunct2, THEN conjunct2] a0 a1 a2
    by (simp add: less_Suc_eq numeral_3_eq_3 numeral_2_eq_2 all_conj_distrib)
  ultimately show ?thesis by simp
qed

theorem services_argument_unused_witness:
  "generate_microservice_traces (\<lambda>i. if i = 0 then 3 else 14) [''a'', ''b'', ''c'']
     [(''a'', ''b'', 10), (''b'', ''c'', 8)] 2 =
   generate_microservice_traces (\<lambda>i. if i = 0 then 3 else 14) []
     [(''a'', ''b'', 10), (''b'', ''c'', 8)] 2 \<and>
   (\<exists>ts. generate_microservice_traces (\<lambda>i. if i = 0 then 3 else 14) [''a'', ''b'', ''c'']
     [(''a'', ''b'', 10), (''b'', ''c'', 8)] 2 = Inr ts \<and> length ts = 2 \<and>
     traceId (ts ! 1) = ''2'' \<and> id_field (ts ! 1) = ''2'' \<and>
     (localEndpoint (ts ! 1), remoteEndpoint (ts ! 1)) \<in> edges [(''a'', ''b'', 10), (''b'', ''c'', 8)])"
proof -
  let ?rand = "\<lambda>i::nat. if i = 0 then 3 else (14::real)"
  let ?cps = "[(''a'', ''b'', 10), (''b'', ''c'', 8)] :: call_pattern list"
  have str2: "str (int 1 + 1) = ''2''" by (simp add: str_def digits10.simps)
  obtain ts where ts: "generate_microservice_traces ?rand [''a'', ''b'', ''c''] ?cps 2 = Inr ts"
    and len: "length ts = 2"
    by (simp add: generate_microservice_traces_def numeral_2_eq_2 Let_def
        total_frequency_def random_uniform_def float_of_int_overflows_def)
  have one: "(1::nat) < length ts" using len by simp
  have same: "generate_microservice_traces ?rand [''a'', ''b'', ''c''] ?cps 2 =
      generate_microservice_traces ?rand [] ?cps 2"
    using services_argument_unused [of ?rand "[''a'', ''b'', ''c'']" ?cps 2 "[]"] by blast
  have "traceId (ts ! 1) = str (int 1 + 1) \<and> id_field (ts ! 1) = str (int 1 + 1) \<and>
      (localEndpoint (ts ! 1), remoteEndpoint (ts ! 1)) \<in> edges ?cps"
    using services_argument_unused [of ?rand "[''a'', ''b'', ''c'']" ?cps 2 "[]"] ts one
    by blast
  then have "traceId (ts ! 1) = ''2'' \<and> id_field (ts ! 1) = ''2'' \<and>
      (localEndpoint (ts ! 1), remoteEndpoint (ts ! 1)) \<in> edges ?cps"
    unfolding str2 .
  with same ts len show ?thesis by blast
qed

section \<open>Properties of the expected-DCI report\<close>

lemma callees_of_Nil [simp]: "callees_of [] S = {}"
  by (simp add: callees_of_def edges_def)

lemma callees_of_Cons:
  "callees_of ((caller, callee, freq) # rest) S =
     (if caller = S then insert callee (callees_of rest S) else callees_of rest S)"
  by (auto simp: callees_of_def edges_def)

lemma finite_callees_of: "finite (callees_of calls S)"
proof -
  have "callees_of calls S \<subseteq> snd ` edges calls" by (force simp: callees_of_def)
  moreover have "finite (edges calls)" by (simp add: edges_def)
  ultimately show ?thesis by (meson finite_imageI finite_subset)
qed

lemma distinctCallees_card: "distinctCallees calls S = card (callees_of calls S)"
proof -
  have "set (map (\<lambda>(caller, callee, freq). callee)
             (filter (\<lambda>(caller, callee, freq). caller = S) calls)) = callees_of calls S"
    by (force simp: callees_of_def edges_def)
  then show ?thesis by (simp add: distinctCallees_def)
qed

lemma init_service_calls_apply:
  "init_service_calls services m = (\<lambda>k. if k \<in> set services then Some {} else m k)"
  by (induction services arbitrary: m) (auto simp: fun_eq_iff)

lemma add_calls_ok:
  "\<forall>(caller, callee, freq) \<in> set calls. caller \<in> dom m \<Longrightarrow>
   add_calls calls m = Inr (\<lambda>k. map_option (\<lambda>s. s \<union> callees_of calls k) (m k))"
proof (induction calls arbitrary: m)
  case Nil
  then show ?case by (simp add: fun_eq_iff option.map_ident)
next
  case (Cons p calls)
  obtain caller callee freq where p: "p = (caller, callee, freq)" by (cases p) auto
  from Cons.prems p obtain s where s: "m caller = Some s" by auto
  let ?m = "m(caller \<mapsto> insert callee s)"
  have "\<forall>(caller, callee, freq) \<in> set calls. caller \<in> dom ?m"
    using Cons.prems by auto
  from Cons.IH [OF this]
  have "add_calls calls ?m = Inr (\<lambda>k. map_option (\<lambda>s. s \<union> callees_of calls k) (?m k))" .
  moreover have "(\<lambda>k. map_option (\<lambda>s. s \<union> callees_of calls k) (?m k)) =
      (\<lambda>k. map_option (\<lambda>s. s \<union> callees_of (p # calls) k) (m k))"
    using s p by (auto simp: fun_eq_iff callees_of_Cons)
  ultimately show ?case using s p by simp
qed

lemma add_calls_KeyError:
  "\<not> (\<forall>(caller, callee, freq) \<in> set calls. caller \<in> dom m) \<Longrightarrow> add_calls calls m = Inl KeyError"
proof (induction calls arbitrary: m)
  case Nil
  then show ?case by simp
next
  case (Cons p calls)
  obtain caller callee freq where p: "p = (caller, callee, freq)" by (cases p) auto
  show ?case
  proof (cases "m caller")
    case None
    then show ?thesis using p by simp
  next
    case (Some s)
    let ?m = "m(caller \<mapsto> insert callee s)"
    have "dom ?m = dom m" using Some by auto
    then have "\<not> (\<forall>(caller, callee, freq) \<in> set calls. caller \<in> dom ?m)"
      using Cons.prems p Some by auto
    from Cons.IH [OF this] have rest: "add_calls calls ?m = Inl KeyError" .
    have "add_calls (p # calls) m = add_calls calls ?m" using p Some by simp
    also note rest
    finally show ?thesis .
  qed
qed

lemma report_lines_ok:
  "\<forall>S \<in> set svcs. sc S = Some (callees_of calls S) \<Longrightarrow>
   report_lines sc mp svcs =
     Inr (map (\<lambda>S. \<lparr>line_service = S, line_actual_calls = distinctCallees calls S, line_max_possible = mp,
                    line_dci = (if mp > 0 then real (distinctCallees calls S) / real_of_int mp else 0),
                    line_status = coupling_status
                      (if mp > 0 then real (distinctCallees calls S) / real_of_int mp else 0)\<rparr>)
              svcs)"
  by (induction svcs) (simp_all add: distinctCallees_card Let_def)

lemma expected_dci_closed:
  "expected_dci services calls =
     (if \<forall>(caller, callee, freq) \<in> set calls. caller \<in> set services
      then Inr (map (\<lambda>S. \<lparr>line_service = S, line_actual_calls = distinctCallees calls S,
                     line_max_possible = int (length services) - 1,
                     line_dci = expectedDci services calls S,
                     line_status = coupling_status (expectedDci services calls S)\<rparr>) services)
      else Inl KeyError)"
proof -
  let ?m = "init_service_calls services Map.empty"
  have dom: "dom ?m = set services"
    by (auto simp: init_service_calls_apply split: if_splits)
  show ?thesis
  proof (cases "\<forall>(caller, callee, freq) \<in> set calls. caller \<in> set services")
    case True
    then have "\<forall>(caller, callee, freq) \<in> set calls. caller \<in> dom ?m" using dom by simp
    from add_calls_ok [OF this]
    have ac: "add_calls calls ?m = Inr (\<lambda>k. map_option (\<lambda>s. s \<union> callees_of calls k) (?m k))" .
    have "\<forall>S \<in> set services.
            (\<lambda>k. map_option (\<lambda>s. s \<union> callees_of calls k) (?m k)) S = Some (callees_of calls S)"
      by (simp add: init_service_calls_apply)
    from report_lines_ok [OF this, of "int (length services) - 1"] ac True
    show ?thesis by (simp add: expected_dci_def expectedDci_def)
  next
    case False
    then have "\<not> (\<forall>(caller, callee, freq) \<in> set calls. caller \<in> dom ?m)" using dom by simp
    from add_calls_KeyError [OF this] False show ?thesis by (simp add: expected_dci_def)
  qed
qed

lemma expectedDci_nonneg: "0 \<le> expectedDci services calls S"
  by (simp add: expectedDci_def)

lemma coupling_status_iff:
  "0 \<le> d \<Longrightarrow>
   (coupling_status d = ''High'' \<longleftrightarrow> 0.7 \<le> d) \<and>
   (coupling_status d = ''Moderate'' \<longleftrightarrow> 0.4 \<le> d \<and> d < 0.7) \<and>
   (coupling_status d = ''Low'' \<longleftrightarrow> 0 < d \<and> d < 0.4) \<and>
   (coupling_status d = ''No'' \<longleftrightarrow> d = 0)"
  by (auto simp: coupling_status_def)


lemma expected_dci_edges_cong:
  assumes "edges calls' = edges calls"
  shows "expected_dci services calls' = expected_dci services calls"
proof -
  have callers: "\<And>cs. (\<forall>(caller, callee, freq) \<in> set cs. caller \<in> set services) \<longleftrightarrow>
      fst ` edges cs \<subseteq> set services"
    by (force simp: edges_def)
  have "\<And>S. distinctCallees calls' S = distinctCallees calls S"
    using assms by (simp add: distinctCallees_card callees_of_def)
  then have "\<And>S. expectedDci services calls' S = expectedDci services calls S"
    by (simp add: expectedDci_def)
  then show ?thesis
    using assms \<open>\<And>S. distinctCallees calls' S = distinctCallees calls S\<close>
    by (simp add: expected_dci_closed callers)
qed

lemma edges_mset: "mset calls' = mset calls \<Longrightarrow> edges calls' = edges calls"
proof -
  assume "mset calls' = mset calls"
  then have "set calls' = set calls" by (rule mset_eq_setD)
  then show ?thesis by (simp add: edges_def)
qed

lemma edges_duplicate:
  "(caller, callee) \<in> edges (xs @ ys) \<Longrightarrow>
   edges (xs @ (caller, callee, freq) # ys) = edges (xs @ ys)"
  by (auto simp: edges_def)

text \<open>
  Claim C3. For a template that satisfies the invariant of the data model used by this
  code (every caller of a call pattern is in the service list; all four catalog
  templates do, see \<open>catalog_well_formed\<close>), the report has one line per entry of the
  service list, in its order; the score of a service is the number of distinct callees
  of its patterns divided by \<open>|services| - 1\<close>, and 0 when \<open>|services| - 1 \<le> 0\<close>; the
  status is High exactly when the score is at least 0.7, Moderate exactly when it is in
  \<open>[0.4, 0.7)\<close>, Low exactly when it is in \<open>(0, 0.4)\<close> and No exactly when it is 0. On
  the catalog's \<open>simple_chain\<close> the three calling services score 1/3 (Low) and
  \<open>database\<close> scores 0 (No). Scores are exact quotients here, where Python has floats.
\<close>

theorem expected_dci_formula_and_status:
  "((\<forall>(caller, callee, freq) \<in> set calls. caller \<in> set services) \<longrightarrow>
      (\<exists>rows. expected_dci services calls = Inr rows \<and>
         map line_service rows = services \<and>
         (\<forall>r \<in> set rows.
            line_dci r = expectedDci services calls (line_service r) \<and>
            (line_status r = ''High'' \<longleftrightarrow> 0.7 \<le> line_dci r) \<and>
            (line_status r = ''Moderate'' \<longleftrightarrow> 0.4 \<le> line_dci r \<and> line_dci r < 0.7) \<and>
            (line_status r = ''Low'' \<longleftrightarrow> 0 < line_dci r \<and> line_dci r < 0.4) \<and>
            (line_status r = ''No'' \<longleftrightarrow> line_dci r = 0)))) \<and>
   (case map_of create_common_patterns ''simple_chain'' of
      None \<Rightarrow> False
    | Some p \<Rightarrow>
        expected_dci (pattern_services p) (pattern_calls p) =
          Inr [\<lparr>line_service = ''frontend'', line_actual_calls = 1, line_max_possible = 3,
                 line_dci = 1 / 3, line_status = ''Low''\<rparr>,
               \<lparr>line_service = ''api-gateway'', line_actual_calls = 1, line_max_possible = 3,
                 line_dci = 1 / 3, line_status = ''Low''\<rparr>,
               \<lparr>line_service = ''user-service'', line_actual_calls = 1, line_max_possible = 3,
                 line_dci = 1 / 3, line_status = ''Low''\<rparr>,
               \<lparr>line_service = ''database'', line_actual_calls = 0, line_max_possible = 3,
                 line_dci = 0, line_status = ''No''\<rparr>])"
proof (rule conjI)
  show "(\<forall>(caller, callee, freq) \<in> set calls. caller \<in> set services) \<longrightarrow>
      (\<exists>rows. expected_dci services calls = Inr rows \<and>
         map line_service rows = services \<and>
         (\<forall>r \<in> set rows.
            line_dci r = expectedDci services calls (line_service r) \<and>
            (line_status r = ''High'' \<longleftrightarrow> 0.7 \<le> line_dci r) \<and>
            (line_status r = ''Moderate'' \<longleftrightarrow> 0.4 \<le> line_dci r \<and> line_dci r < 0.7) \<and>
            (line_status r = ''Low'' \<longleftrightarrow> 0 < line_dci r \<and> line_dci r < 0.4) \<and>
            (line_status r = ''No'' \<longleftrightarrow> line_dci r = 0)))"
  proof
    assume inv: "\<forall>(caller, callee, freq) \<in> set calls. caller \<in> set services"
    let ?line = "\<lambda>S. \<lparr>line_service = S, line_actual_calls = distinctCallees calls S,
                     line_max_possible = int (length services) - 1,
                     line_dci = expectedDci services calls S,
                     line_status = coupling_status (expectedDci services calls S)\<rparr>"
    have res: "expected_dci services calls = Inr (map ?line services)"
      using inv by (simp add: expected_dci_closed)
    have names: "map line_service (map ?line services) = services"
      by (simp add: comp_def)
    have each: "\<forall>r \<in> set (map ?line services).
            line_dci r = expectedDci services calls (line_service r) \<and>
            (line_status r = ''High'' \<longleftrightarrow> 0.7 \<le> line_dci r) \<and>
            (line_status r = ''Moderate'' \<longleftrightarrow> 0.4 \<le> line_dci r \<and> line_dci r < 0.7) \<and>
            (line_status r = ''Low'' \<longleftrightarrow> 0 < line_dci r \<and> line_dci r < 0.4) \<and>
            (line_status r = ''No'' \<longleftrightarrow> line_dci r = 0)"
    proof
      fix r assume "r \<in> set (map ?line services)"
      then obtain S where r: "r = ?line S" by auto
      from coupling_status_iff [OF expectedDci_nonneg, of services calls S]
      show "line_dci r = expectedDci services calls (line_service r) \<and>
            (line_status r = ''High'' \<longleftrightarrow> 0.7 \<le> line_dci r) \<and>
            (line_status r = ''Moderate'' \<longleftrightarrow> 0.4 \<le> line_dci r \<and> line_dci r < 0.7) \<and>
            (line_status r = ''Low'' \<longleftrightarrow> 0 < line_dci r \<and> line_dci r < 0.4) \<and>
            (line_status r = ''No'' \<longleftrightarrow> line_dci r = 0)"
        unfolding r by simp
    qed
    from res names each show "\<exists>rows. expected_dci services calls = Inr rows \<and>
         map line_service rows = services \<and>
         (\<forall>r \<in> set rows.
            line_dci r = expectedDci services calls (line_service r) \<and>
            (line_status r = ''High'' \<longleftrightarrow> 0.7 \<le> line_dci r) \<and>
            (line_status r = ''Moderate'' \<longleftrightarrow> 0.4 \<le> line_dci r \<and> line_dci r < 0.7) \<and>
            (line_status r = ''Low'' \<longleftrightarrow> 0 < line_dci r \<and> line_dci r < 0.4) \<and>
            (line_status r = ''No'' \<longleftrightarrow> line_dci r = 0))"
      by blast
  qed
next
  show "case map_of create_common_patterns ''simple_chain'' of
      None \<Rightarrow> False
    | Some p \<Rightarrow>
        expected_dci (pattern_services p) (pattern_calls p) =
          Inr [\<lparr>line_service = ''frontend'', line_actual_calls = 1, line_max_possible = 3,
                 line_dci = 1 / 3, line_status = ''Low''\<rparr>,
               \<lparr>line_service = ''api-gateway'', line_actual_calls = 1, line_max_possible = 3,
                 line_dci = 1 / 3, line_status = ''Low''\<rparr>,
               \<lparr>line_service = ''user-service'', line_actual_calls = 1, line_max_possible = 3,
                 line_dci = 1 / 3, line_status = ''Low''\<rparr>,
               \<lparr>line_service = ''database'', line_actual_calls = 0, line_max_possible = 3,
                 line_dci = 0, line_status = ''No''\<rparr>]"
    by (simp add: create_common_patterns_def expected_dci_def coupling_status_def Let_def)
qed

text \<open>
  Claim C9. The report depends on the call-pattern list only through its set of
  caller/callee pairs. So it is unchanged by any reordering of the list (a list with
  the same multiset of patterns), and unchanged when a pattern is inserted anywhere
  whose caller/callee pair already occurs in the list, whatever its weight.
\<close>

theorem expected_dci_order_duplicate_invariant:
  "(mset calls' = mset calls \<longrightarrow> expected_dci services calls' = expected_dci services calls) \<and>
   ((caller, callee) \<in> edges (xs @ ys) \<longrightarrow>
      expected_dci services (xs @ (caller, callee, freq) # ys) = expected_dci services (xs @ ys)) \<and>
   (edges calls' = edges calls \<longrightarrow> expected_dci services calls' = expected_dci services calls)"
  using expected_dci_edges_cong edges_mset edges_duplicate by blast

section \<open>Properties of the validation script\<close>

lemma value_counts_apply:
  "value_counts vs v = (if v \<in> set vs then Some (count_list vs v) else None)"
  by (induction vs) (auto simp: Let_def)

lemma count_list_filter: "count_list (map f xs) v = length (filter (\<lambda>x. f x = v) xs)"
  by (induction xs) auto

text \<open>
  Claim C5, as the code has it. The status distribution has an entry exactly for the
  status values that occur in some row of the table; the entry is the number of rows
  with that status, which is at least 1. A status that occurs in no row has no entry.
\<close>

theorem status_counts_only_occurring:
  "dom (status_counts df) = Status ` set df \<and>
   (\<forall>s \<in> Status ` set df.
      status_counts df s = Some (length (filter (\<lambda>r. Status r = s) df)) \<and>
      1 \<le> length (filter (\<lambda>r. Status r = s) df))"
proof (rule conjI)
  show "dom (status_counts df) = Status ` set df"
    by (auto simp: status_counts_def value_counts_apply split: if_splits)
next
  show "\<forall>s \<in> Status ` set df.
      status_counts df s = Some (length (filter (\<lambda>r. Status r = s) df)) \<and>
      1 \<le> length (filter (\<lambda>r. Status r = s) df)"
  proof
    fix s assume s: "s \<in> Status ` set df"
    then obtain r where "r \<in> set df" "Status r = s" by auto
    then have "r \<in> set (filter (\<lambda>r. Status r = s) df)" by simp
    then have "filter (\<lambda>r. Status r = s) df \<noteq> []" by (metis empty_iff empty_set)
    then have "1 \<le> length (filter (\<lambda>r. Status r = s) df)"
      by (simp add: Suc_le_eq)
    moreover have "status_counts df s = Some (length (filter (\<lambda>r. Status r = s) df))"
      using s by (simp add: status_counts_def value_counts_apply count_list_filter)
    ultimately show "status_counts df s = Some (length (filter (\<lambda>r. Status r = s) df)) \<and>
      1 \<le> length (filter (\<lambda>r. Status r = s) df)" by simp
  qed
qed

text \<open>
  Claim C5 as stated fails on a table whose only row is High: the distribution has no
  entry for Low.
\<close>

theorem status_counts_missing_low:
  "status_counts [\<lparr>Service = ''svcA'', DCI = 0.8, Status = ''High''\<rparr>] ''Low'' = None"
  by (simp add: status_counts_def)

theorem status_counts_only_occurring_witness:
  "status_counts [\<lparr>Service = ''svcA'', DCI = 0.8, Status = ''High''\<rparr>,
                  \<lparr>Service = ''svcB'', DCI = 0.1, Status = ''Low''\<rparr>,
                  \<lparr>Service = ''svcC'', DCI = 0.9, Status = ''High''\<rparr>] ''High'' = Some 2 \<and>
   dom (status_counts [\<lparr>Service = ''svcA'', DCI = 0.8, Status = ''High''\<rparr>,
                  \<lparr>Service = ''svcB'', DCI = 0.1, Status = ''Low''\<rparr>,
                  \<lparr>Service = ''svcC'', DCI = 0.9, Status = ''High''\<rparr>]) = {''High'', ''Low''}"
proof -
  let ?df = "[\<lparr>Service = ''svcA'', DCI = 0.8, Status = ''High''\<rparr>,
              \<lparr>Service = ''svcB'', DCI = 0.1, Status = ''Low''\<rparr>,
              \<lparr>Service = ''svcC'', DCI = 0.9, Status = ''High''\<rparr>]"
  have mem: "''High'' \<in> Status ` set ?df" by simp
  from status_counts_only_occurring [of ?df, THEN conjunct2, rule_format, OF mem]
  have "status_counts ?df ''High'' = Some 2" by simp
  moreover from status_counts_only_occurring [of ?df, THEN conjunct1]
  have "dom (status_counts ?df) = {''High'', ''Low''}" by auto
  ultimately show ?thesis by simp
qed

lemma set_merge_inner:
  "set (merge_inner dci_df rows) =
     {(d, m). d \<in> set dci_df \<and> m \<in> set rows \<and> mci_Service m = Service d}"
  by (auto simp: merge_inner_def)

lemma merge_inner_empty_iff:
  "merge_inner dci_df rows = [] \<longleftrightarrow> Service ` set dci_df \<inter> mci_Service ` set rows = {}"
proof -
  have "merge_inner dci_df rows = [] \<longleftrightarrow> set (merge_inner dci_df rows) = {}" by simp
  also have "\<dots> \<longleftrightarrow> Service ` set dci_df \<inter> mci_Service ` set rows = {}"
    unfolding set_merge_inner by (auto; metis)
  finally show ?thesis .
qed

lemma merged_columns:
  "map merged_DCI (map (with_difference rnd) merged) = map (\<lambda>(d, m). DCI d) merged"
  "map merged_MCI_Afferent (map (with_difference rnd) merged) =
     map (\<lambda>(d, m). MCI_Afferent m) merged"
  by (simp_all add: with_difference_def comp_def split_def)

lemma compare_with_mci_closed:
  "compare_with_mci corr rnd dci_df (Some mci_df) =
     (if ''Service'' \<in> set (mci_columns mci_df) \<and> ''DCI'' \<notin> set (mci_columns mci_df) \<and>
         ''MCI_Afferent'' \<in> set (mci_columns mci_df) \<and>
         merge_inner dci_df (mci_rows mci_df) \<noteq> []
      then Some (corr (map merged_DCI (map (with_difference rnd) (merge_inner dci_df (mci_rows mci_df))))
                      (map merged_MCI_Afferent
                         (map (with_difference rnd) (merge_inner dci_df (mci_rows mci_df)))),
                 map (with_difference rnd) (merge_inner dci_df (mci_rows mci_df)))
      else None)"
  unfolding merged_columns
  by (simp add: compare_with_mci_def compare_try_def Let_def)




text \<open>
  Claim C8, as the code has it. When the comparison returns a merged table, the services
  of its rows are exactly the services present in both tables, every row pairs a DCI row
  and an MCI row of that service, and its \<open>Difference\<close> is \<open>|DCI - MCI_Afferent|\<close> as the
  float subtraction computes it (the exact difference, rounded). For an MCI table whose
  header has \<open>Service\<close> and \<open>MCI_Afferent\<close> and no column named \<open>DCI\<close>, nothing is returned
  exactly when the two tables have no service in common. Joining
  \<open>[{svcA, 0.8}, {svcB, 0.1}]\<close> with \<open>[{svcA, 0.75}, {svcC, 0.2}]\<close>, the cells being the
  doubles that Python reads for these decimals (\<open>0.8\<close> is \<open>3602879701896397 / 2^52\<close>),
  gives one row, for svcA, whose difference is \<open>225179981368525 / 2^52\<close>, the double
  that Python prints as \<open>0.050000000000000044\<close>: the exact difference of the two cells is
  a double, which the rounding leaves unchanged.
\<close>

theorem join_inner_difference:
  "(\<forall>c rows. compare_with_mci corr rnd dci_df (Some mci_df) = Some (c, rows) \<longrightarrow>
      merged_Service ` set rows = Service ` set dci_df \<inter> mci_Service ` set (mci_rows mci_df) \<and>
      (\<forall>r \<in> set rows.
         Difference r = \<bar>rnd (merged_DCI r - merged_MCI_Afferent r)\<bar> \<and>
         (\<exists>d \<in> set dci_df. \<exists>m \<in> set (mci_rows mci_df).
            Service d = merged_Service r \<and> mci_Service m = merged_Service r \<and>
            DCI d = merged_DCI r \<and> MCI_Afferent m = merged_MCI_Afferent r))) \<and>
   (''Service'' \<in> set (mci_columns mci_df) \<and> ''MCI_Afferent'' \<in> set (mci_columns mci_df) \<and>
    ''DCI'' \<notin> set (mci_columns mci_df) \<longrightarrow>
      (compare_with_mci corr rnd dci_df (Some mci_df) = None \<longleftrightarrow>
         Service ` set dci_df \<inter> mci_Service ` set (mci_rows mci_df) = {})) \<and>
   (rnd (3602879701896397 / 4503599627370496 - 3 / 4) =
      3602879701896397 / 4503599627370496 - 3 / 4 \<longrightarrow>
    compare_with_mci corr rnd
     [\<lparr>Service = ''svcA'', DCI = 3602879701896397 / 4503599627370496, Status = ''High''\<rparr>,
      \<lparr>Service = ''svcB'', DCI = 3602879701896397 / 36028797018963968, Status = ''Low''\<rparr>]
     (Some \<lparr>mci_columns = [''Service'', ''MCI_Afferent''],
            mci_rows =
              [\<lparr>mci_Service = ''svcA'', MCI_Afferent = 3 / 4\<rparr>,
               \<lparr>mci_Service = ''svcC'', MCI_Afferent = 3602879701896397 / 18014398509481984\<rparr>]\<rparr>) =
   Some (corr [3602879701896397 / 4503599627370496] [3 / 4],
         [\<lparr>merged_Service = ''svcA'', merged_DCI = 3602879701896397 / 4503599627370496,
           merged_MCI_Afferent = 3 / 4,
           Difference = 225179981368525 / 4503599627370496\<rparr>]))"
proof (intro conjI)
  show "\<forall>c rows. compare_with_mci corr rnd dci_df (Some mci_df) = Some (c, rows) \<longrightarrow>
      merged_Service ` set rows = Service ` set dci_df \<inter> mci_Service ` set (mci_rows mci_df) \<and>
      (\<forall>r \<in> set rows.
         Difference r = \<bar>rnd (merged_DCI r - merged_MCI_Afferent r)\<bar> \<and>
         (\<exists>d \<in> set dci_df. \<exists>m \<in> set (mci_rows mci_df).
            Service d = merged_Service r \<and> mci_Service m = merged_Service r \<and>
            DCI d = merged_DCI r \<and> MCI_Afferent m = merged_MCI_Afferent r))"
  proof (intro allI impI)
    fix c rows assume "compare_with_mci corr rnd dci_df (Some mci_df) = Some (c, rows)"
    then have rows: "rows = map (with_difference rnd) (merge_inner dci_df (mci_rows mci_df))"
      by (simp add: compare_with_mci_closed split: if_splits)
    have services: "merged_Service ` set rows =
        Service ` set dci_df \<inter> mci_Service ` set (mci_rows mci_df)"
      unfolding rows by (force simp: set_merge_inner with_difference_def image_iff)
    have each: "\<forall>r \<in> set rows.
         Difference r = \<bar>rnd (merged_DCI r - merged_MCI_Afferent r)\<bar> \<and>
         (\<exists>d \<in> set dci_df. \<exists>m \<in> set (mci_rows mci_df).
            Service d = merged_Service r \<and> mci_Service m = merged_Service r \<and>
            DCI d = merged_DCI r \<and> MCI_Afferent m = merged_MCI_Afferent r)"
      unfolding rows by (auto simp: set_merge_inner with_difference_def)
    from services each
    show "merged_Service ` set rows =
        Service ` set dci_df \<inter> mci_Service ` set (mci_rows mci_df) \<and>
      (\<forall>r \<in> set rows.
         Difference r = \<bar>rnd (merged_DCI r - merged_MCI_Afferent r)\<bar> \<and>
         (\<exists>d \<in> set dci_df. \<exists>m \<in> set (mci_rows mci_df).
            Service d = merged_Service r \<and> mci_Service m = merged_Service r \<and>
            DCI d = merged_DCI r \<and> MCI_Afferent m = merged_MCI_Afferent r))" by (rule conjI)
  qed
next
  show "''Service'' \<in> set (mci_columns mci_df) \<and> ''MCI_Afferent'' \<in> set (mci_columns mci_df) \<and>
    ''DCI'' \<notin> set (mci_columns mci_df) \<longrightarrow>
      (compare_with_mci corr rnd dci_df (Some mci_df) = None \<longleftrightarrow>
         Service ` set dci_df \<inter> mci_Service ` set (mci_rows mci_df) = {})"
    by (simp add: compare_with_mci_closed merge_inner_empty_iff)
next
  show "rnd (3602879701896397 / 4503599627370496 - 3 / 4) =
      3602879701896397 / 4503599627370496 - 3 / 4 \<longrightarrow>
    compare_with_mci corr rnd
     [\<lparr>Service = ''svcA'', DCI = 3602879701896397 / 4503599627370496, Status = ''High''\<rparr>,
      \<lparr>Service = ''svcB'', DCI = 3602879701896397 / 36028797018963968, Status = ''Low''\<rparr>]
     (Some \<lparr>mci_columns = [''Service'', ''MCI_Afferent''],
            mci_rows =
              [\<lparr>mci_Service = ''svcA'', MCI_Afferent = 3 / 4\<rparr>,
               \<lparr>mci_Service = ''svcC'', MCI_Afferent = 3602879701896397 / 18014398509481984\<rparr>]\<rparr>) =
   Some (corr [3602879701896397 / 4503599627370496] [3 / 4],
         [\<lparr>merged_Service = ''svcA'', merged_DCI = 3602879701896397 / 4503599627370496,
           merged_MCI_Afferent = 3 / 4,
           Difference = 225179981368525 / 4503599627370496\<rparr>])"
    by (simp add: compare_with_mci_def compare_try_def merge_inner_def with_difference_def
        Let_def)
qed

text \<open>
  Claim C8 as stated fails in two ways. With an MCI table that has a \<open>DCI\<close> column, as
  the comparison template written by \<open>create_comparison_template\<close> has, reading
  \<open>merged['DCI']\<close> raises \<open>KeyError\<close>, which is caught, and nothing is returned although
  both services are present on both sides. And on the claim's example (the rounding is
  the identity there, the difference being a double) the one row has the difference
  \<open>225179981368525 / 2^52\<close>, which is neither the number 0.05 nor the double nearest to it.
\<close>

theorem join_template_header_returns_nothing:
  "compare_with_mci pearson id
     [\<lparr>Service = ''svcA'', DCI = 0.5, Status = ''Moderate''\<rparr>,
      \<lparr>Service = ''svcB'', DCI = 0.25, Status = ''Low''\<rparr>]
     (Some \<lparr>mci_columns = [''Service'', ''DCI'', ''MCI_Afferent'', ''MCI_Efferent'', ''Notes''],
            mci_rows = [\<lparr>mci_Service = ''svcA'', MCI_Afferent = 0.25\<rparr>,
                        \<lparr>mci_Service = ''svcB'', MCI_Afferent = 0.75\<rparr>]\<rparr>) = None \<and>
   compare_with_mci pearson id
     [\<lparr>Service = ''svcA'', DCI = 3602879701896397 / 4503599627370496, Status = ''High''\<rparr>,
      \<lparr>Service = ''svcB'', DCI = 3602879701896397 / 36028797018963968, Status = ''Low''\<rparr>]
     (Some \<lparr>mci_columns = [''Service'', ''MCI_Afferent''],
            mci_rows =
              [\<lparr>mci_Service = ''svcA'', MCI_Afferent = 3 / 4\<rparr>,
               \<lparr>mci_Service = ''svcC'', MCI_Afferent = 3602879701896397 / 18014398509481984\<rparr>]\<rparr>) =
   Some (None,
         [\<lparr>merged_Service = ''svcA'', merged_DCI = 3602879701896397 / 4503599627370496,
           merged_MCI_Afferent = 3 / 4,
           Difference = 225179981368525 / 4503599627370496\<rparr>]) \<and>
   225179981368525 / 4503599627370496 \<noteq> (5 / 100 :: real) \<and>
   225179981368525 / 4503599627370496 \<noteq> (3602879701896397 / 72057594037927936 :: real)"
  by (simp add: compare_with_mci_def compare_try_def merge_inner_def with_difference_def
      pearson_def Let_def)

theorem join_inner_difference_witness:
  "\<exists>c rows. compare_with_mci pearson id
       [\<lparr>Service = ''svcA'', DCI = 0.5, Status = ''Moderate''\<rparr>,
        \<lparr>Service = ''svcB'', DCI = 0.25, Status = ''Low''\<rparr>]
       (Some \<lparr>mci_columns = [''Service'', ''MCI_Afferent'', ''MCI_Efferent''],
              mci_rows = [\<lparr>mci_Service = ''svcB'', MCI_Afferent = 0.75\<rparr>]\<rparr>) = Some (c, rows) \<and>
     merged_Service ` set rows = {''svcB''} \<and>
     (\<forall>r \<in> set rows. Difference r = \<bar>merged_DCI r - merged_MCI_Afferent r\<bar>)"
proof -
  let ?dci = "[\<lparr>Service = ''svcA'', DCI = 0.5, Status = ''Moderate''\<rparr>,
               \<lparr>Service = ''svcB'', DCI = 0.25, Status = ''Low''\<rparr>]"
  let ?mci = "\<lparr>mci_columns = [''Service'', ''MCI_Afferent'', ''MCI_Efferent''],
              mci_rows = [\<lparr>mci_Service = ''svcB'', MCI_Afferent = 0.75\<rparr>]\<rparr>"
  obtain c rows where rows: "compare_with_mci pearson id ?dci (Some ?mci) = Some (c, rows)"
    by (simp add: compare_with_mci_def compare_try_def merge_inner_def Let_def)
  from join_inner_difference [of pearson id ?dci ?mci, THEN conjunct1, rule_format, OF rows]
  have "merged_Service ` set rows = Service ` set ?dci \<inter> mci_Service ` set (mci_rows ?mci)"
    and "\<forall>r \<in> set rows. Difference r = \<bar>id (merged_DCI r - merged_MCI_Afferent r)\<bar>"
    by blast+
  moreover have "Service ` set ?dci \<inter> mci_Service ` set (mci_rows ?mci) = {''svcB''}" by auto
  ultimately show ?thesis using rows by auto
qed

section \<open>Exit status and further concrete runs\<close>

lemma generate_total:
  "call_patterns \<noteq> [] \<Longrightarrow> \<not> float_of_int_overflows (total_frequency call_patterns) \<Longrightarrow>
   \<exists>ts. generate_microservice_traces rand services call_patterns num_traces = Inr ts"
proof -
  assume "call_patterns \<noteq> []" and "\<not> float_of_int_overflows (total_frequency call_patterns)"
  from trace_loop_total [OF this] obtain st' where
    "trace_loop rand (total_frequency call_patterns) call_patterns 0 (nat num_traces)
       \<lparr>traces = [], trace_id = 1, loop_vars = None\<rparr> = Inr st'" by blast
  then show ?thesis by (simp add: generate_microservice_traces_def)
qed

lemma catalog_well_formed:
  "map_of create_common_patterns name = Some p \<Longrightarrow>
   pattern_calls p \<noteq> [] \<and>
   (\<forall>(caller, callee, freq) \<in> set (pattern_calls p). caller \<in> set (pattern_services p))"
  by (auto simp: create_common_patterns_def split: if_splits)

lemma catalog_total_frequency:
  "map_of create_common_patterns name = Some p \<Longrightarrow>
   total_frequency (pattern_calls p) \<in> {24, 47, 39, 43}"
  by (auto simp: create_common_patterns_def total_frequency_def split: if_splits)

lemma catalog_no_overflow:
  "map_of create_common_patterns name = Some p \<Longrightarrow>
   \<not> float_of_int_overflows (total_frequency (pattern_calls p))"
proof -
  assume "map_of create_common_patterns name = Some p"
  from catalog_total_frequency [OF this]
  show ?thesis by (auto simp: float_of_int_overflows_def)
qed

lemma generate_traces_main_unknown:
  "2 \<le> length argv \<Longrightarrow> map_of create_common_patterns (argv ! 1) = None \<Longrightarrow>
   generate_traces_main py_int rand writable argv = 1"
  by (simp add: generate_traces_main_def Let_def split: option.splits)

lemma generate_traces_main_known:
  assumes "2 \<le> length argv" and "map_of create_common_patterns (argv ! 1) = Some p"
    and "length argv > 2 \<longrightarrow> py_int (argv ! 2) \<noteq> None" and "writable"
  shows "generate_traces_main py_int rand writable argv = 0"
proof -
  obtain num_traces where
    n: "(if length argv > 2 then py_int (argv ! 2) else Some 100) = Some num_traces"
    using assms(3) by (cases "length argv > 2") auto
  from catalog_well_formed [OF assms(2)] have
    ne: "pattern_calls p \<noteq> []" and
    inv: "\<forall>(caller, callee, freq) \<in> set (pattern_calls p). caller \<in> set (pattern_services p)"
    by simp_all
  from generate_total [OF ne catalog_no_overflow [OF assms(2)]] obtain ts where
    ts: "generate_microservice_traces rand (pattern_services p) (pattern_calls p) num_traces = Inr ts"
    by blast
  from inv obtain lines where
    lines: "expected_dci (pattern_services p) (pattern_calls p) = Inr lines"
    by (simp add: expected_dci_closed)
  have "\<not> length argv < 2" using assms(1) by simp
  then show ?thesis
    unfolding generate_traces_main_def Let_def n
    using assms(2,4) ts lines by simp
qed

lemma validate_main_load_failed:
  "2 \<le> length argv \<Longrightarrow> read_dci (argv ! 1) = None \<Longrightarrow>
   validate_main corr rnd read_dci read_mci writable argv = 0"
  by (simp add: validate_main_def load_dci_results_def Let_def)

text \<open>
  Claim C6, as the code has it. The generator script ends with status 1 when the pattern
  name is not in the catalog, and with status 0 when the name is in the catalog, the
  count (if given) is an integer and the output file can be written. The validation
  script ends with status 0 when the DCI results table is missing or cannot be read:
  the failure is reported and \<open>main\<close> returns.
\<close>

theorem exit_status_by_script:
  "(2 \<le> length argv \<and> map_of create_common_patterns (argv ! 1) = None \<longrightarrow>
      generate_traces_main py_int rand writable argv = 1) \<and>
   (2 \<le> length argv \<and> map_of create_common_patterns (argv ! 1) \<noteq> None \<and>
    (length argv > 2 \<longrightarrow> py_int (argv ! 2) \<noteq> None) \<and> writable \<longrightarrow>
      generate_traces_main py_int rand writable argv = 0) \<and>
   (2 \<le> length argv \<and> read_dci (argv ! 1) = None \<longrightarrow>
      validate_main corr rnd read_dci read_mci writable argv = 0)"
  using generate_traces_main_unknown [of argv py_int rand writable]
    generate_traces_main_known [of argv _ py_int writable rand]
    validate_main_load_failed [of argv read_dci corr rnd read_mci writable]
  by auto

text \<open>
  Claim C6 as stated fails for the validation script: with no readable DCI results
  table the exit status is 0.
\<close>

theorem validate_main_missing_table_exits_zero:
  "validate_main pearson id (map_of []) (map_of []) True
     [''validate_rmt_dci.py'', ''dci_output_rmt.csv''] = 0"
  by (simp add: validate_main_def load_dci_results_def Let_def)

theorem exit_status_by_script_witness:
  "generate_traces_main (map_of [(''5'', 5)]) real True
     [''generate_traces.py'', ''star_topology'', ''5''] = 1 \<and>
   generate_traces_main (map_of [(''5'', 5)]) real True
     [''generate_traces.py'', ''simple_chain'', ''5''] = 0 \<and>
   validate_main pearson id (map_of []) (map_of []) True
     [''validate_rmt_dci.py'', ''dci_output_rmt.csv''] = 0"
proof -
  let ?py_int = "map_of [(''5'', 5::int)]"
  let ?a1 = "[''generate_traces.py'', ''star_topology'', ''5'']"
  let ?a2 = "[''generate_traces.py'', ''simple_chain'', ''5'']"
  let ?a3 = "[''validate_rmt_dci.py'', ''dci_output_rmt.csv'']"
  have h1: "2 \<le> length ?a1 \<and> map_of create_common_patterns (?a1 ! 1) = None"
    by (simp add: create_common_patterns_def)
  have h2: "2 \<le> length ?a2 \<and> map_of create_common_patterns (?a2 ! 1) \<noteq> None \<and>
      (length ?a2 > 2 \<longrightarrow> ?py_int (?a2 ! 2) \<noteq> None) \<and> True"
    by (simp add: create_common_patterns_def)
  have h3: "2 \<le> length ?a3 \<and> map_of ([] :: (string \<times> dci_row list) list) (?a3 ! 1) = None"
    by simp
  from exit_status_by_script [of ?a1 ?py_int real True, THEN conjunct1, rule_format, OF h1]
    exit_status_by_script [of ?a2 ?py_int real True, THEN conjunct2, THEN conjunct1,
      rule_format, OF h2]
    exit_status_by_script [where argv = ?a3 and read_dci = "map_of []" and corr = pearson
      and rnd = id and read_mci = "map_of []" and writable = True, THEN conjunct2,
      THEN conjunct2, rule_format, OF h3]
  show ?thesis by simp
qed

theorem expected_dci_formula_and_status_witness:
  "list_all (\<lambda>(caller, callee, freq). caller \<in> set [''a'', ''b'', ''c''])
      [(''a'', ''b'', 1::int), (''a'', ''c'', 2), (''a'', ''b'', 3)] \<and>
   expected_dci [''a'', ''b'', ''c''] [(''a'', ''b'', 1), (''a'', ''c'', 2), (''a'', ''b'', 3)] =
     Inr [\<lparr>line_service = ''a'', line_actual_calls = 2, line_max_possible = 2,
            line_dci = 1, line_status = ''High''\<rparr>,
          \<lparr>line_service = ''b'', line_actual_calls = 0, line_max_possible = 2,
            line_dci = 0, line_status = ''No''\<rparr>,
          \<lparr>line_service = ''c'', line_actual_calls = 0, line_max_possible = 2,
            line_dci = 0, line_status = ''No''\<rparr>] \<and>
   (\<exists>rows. expected_dci [''a'', ''b'', ''c'']
               [(''a'', ''b'', 1), (''a'', ''c'', 2), (''a'', ''b'', 3)] = Inr rows \<and>
      map line_service rows = [''a'', ''b'', ''c''] \<and>
      (\<forall>r \<in> set rows.
         line_dci r = expectedDci [''a'', ''b'', ''c'']
           [(''a'', ''b'', 1), (''a'', ''c'', 2), (''a'', ''b'', 3)] (line_service r) \<and>
         (line_status r = ''High'' \<longleftrightarrow> 0.7 \<le> line_dci r) \<and>
         (line_status r = ''Moderate'' \<longleftrightarrow> 0.4 \<le> line_dci r \<and> line_dci r < 0.7) \<and>
         (line_status r = ''Low'' \<longleftrightarrow> 0 < line_dci r \<and> line_dci r < 0.4) \<and>
         (line_status r = ''No'' \<longleftrightarrow> line_dci r = 0)))"
proof -
  let ?S = "[''a'', ''b'', ''c'']"
  let ?C = "[(''a'', ''b'', 1), (''a'', ''c'', 2), (''a'', ''b'', 3)] :: call_pattern list"
  have inv: "\<forall>(caller, callee, freq) \<in> set ?C. caller \<in> set ?S" by simp
  have run: "expected_dci ?S ?C =
     Inr [\<lparr>line_service = ''a'', line_actual_calls = 2, line_max_possible = 2,
            line_dci = 1, line_status = ''High''\<rparr>,
          \<lparr>line_service = ''b'', line_actual_calls = 0, line_max_possible = 2,
            line_dci = 0, line_status = ''No''\<rparr>,
          \<lparr>line_service = ''c'', line_actual_calls = 0, line_max_possible = 2,
            line_dci = 0, line_status = ''No''\<rparr>]"
    by (simp add: expected_dci_def coupling_status_def Let_def insert_commute)
  note general = expected_dci_formula_and_status [of ?C ?S, THEN conjunct1, THEN mp, OF inv]
  have inv': "list_all (\<lambda>(caller, callee, freq). caller \<in> set ?S) ?C" by simp
  show ?thesis by (intro conjI) (rule inv', rule run, rule general)
qed

theorem expected_dci_order_duplicate_invariant_witness:
  "mset [(''b'', ''c'', 2), (''a'', ''b'', 1)] = mset [(''a'', ''b'', 1), (''b'', ''c'', 2::int)] \<and>
   expected_dci [''a'', ''b'', ''c''] [(''b'', ''c'', 2), (''a'', ''b'', 1)] =
     expected_dci [''a'', ''b'', ''c''] [(''a'', ''b'', 1), (''b'', ''c'', 2)] \<and>
   (''a'', ''b'') \<in> edges ([(''a'', ''b'', 1)] @ [(''b'', ''c'', 2)]) \<and>
   expected_dci [''a'', ''b'', ''c''] ([(''a'', ''b'', 1)] @ (''a'', ''b'', 7) # [(''b'', ''c'', 2)]) =
     expected_dci [''a'', ''b'', ''c''] ([(''a'', ''b'', 1)] @ [(''b'', ''c'', 2)])"
proof -
  let ?S = "[''a'', ''b'', ''c'']"
  let ?xs = "[(''a'', ''b'', 1)] :: call_pattern list"
  let ?ys = "[(''b'', ''c'', 2)] :: call_pattern list"
  have perm: "mset [(''b'', ''c'', 2), (''a'', ''b'', 1)] =
      mset [(''a'', ''b'', 1), (''b'', ''c'', 2::int)]"
    by (simp add: add_mset_commute)
  have dup: "(''a'', ''b'') \<in> edges (?xs @ ?ys)" by (simp add: edges_def)
  from expected_dci_order_duplicate_invariant
    [of "[(''b'', ''c'', 2), (''a'', ''b'', 1)]" "[(''a'', ''b'', 1), (''b'', ''c'', 2)]" ?S,
     THEN conjunct1, rule_format, OF perm]
   expected_dci_order_duplicate_invariant
    [of _ _ ?S "''a''" "''b''" ?xs ?ys 7, THEN conjunct2, THEN conjunct1, rule_format, OF dup]
   perm dup
  show ?thesis by simp
qed

end
